theory Spec2Isabelle
  imports Main "HOL-Library.Multiset"
begin

section \<open>JavaScript strings\<close>

text \<open>
  A JavaScript string is a sequence of UTF-16 code units. The model takes the strings
  whose code units are all below 256 (Latin-1): a \<^typ>\<open>char\<close> is one code unit and
  \<^term>\<open>length\<close> is the \<^verbatim>\<open>.length\<close> of the source. On these strings
  \<^verbatim>\<open>toLowerCase\<close>, \<^verbatim>\<open>trim\<close> and the regular expressions of the server
  are modelled exactly; code units from 256 on are outside the model.
\<close>

definition isWhiteSpace :: "char \<Rightarrow> bool" where
  \<comment> \<open>the class \<^verbatim>\<open>\s\<close>, which is also what \<^verbatim>\<open>trim\<close> strips: TAB, LF, VT, FF, CR, SP, NBSP\<close>
  "isWhiteSpace c \<longleftrightarrow> c \<in> set [CHR 0x09, CHR 0x0A, CHR 0x0B, CHR 0x0C, CHR 0x0D, CHR 0x20, CHR 0xA0]"

definition isLineTerminator :: "char \<Rightarrow> bool" where
  \<comment> \<open>the characters that \<^verbatim>\<open>.\<close> refuses: LF and CR\<close>
  "isLineTerminator c \<longleftrightarrow> c \<in> set [CHR 0x0A, CHR 0x0D]"

definition isLowerAlnum :: "char \<Rightarrow> bool" where
  \<comment> \<open>the class \<^verbatim>\<open>[a-z0-9]\<close>\<close>
  "isLowerAlnum c \<longleftrightarrow> c \<in> set ''abcdefghijklmnopqrstuvwxyz0123456789''"

definition toLowerChar :: "char \<Rightarrow> char" where
  \<comment> \<open>\<^verbatim>\<open>toLowerCase\<close> on one code unit below 256: A-Z, and the Latin-1 capitals
      U+00C0..U+00DE without the multiplication sign U+00D7\<close>
  "toLowerChar c =
     (let n = (of_char c :: nat)
      in if (65 \<le> n \<and> n \<le> 90) \<or> (192 \<le> n \<and> n \<le> 222 \<and> n \<noteq> 215)
         then char_of (n + 32) else c)"

definition toLowerCase :: "string \<Rightarrow> string" where
  "toLowerCase s = map toLowerChar s"

definition asciiLowerChar :: "char \<Rightarrow> char" where
  \<comment> \<open>case folding of the \<^verbatim>\<open>i\<close> flag against a lower-case ASCII pattern: only A-Z fold
      onto a-z; no code unit from 128 on is canonicalised to an ASCII letter\<close>
  "asciiLowerChar c =
     (let n = (of_char c :: nat) in if 65 \<le> n \<and> n \<le> 90 then char_of (n + 32) else c)"

definition trim :: "string \<Rightarrow> string" where
  "trim s = rev (dropWhile isWhiteSpace (rev (dropWhile isWhiteSpace s)))"

fun startsWith :: "string \<Rightarrow> string \<Rightarrow> bool" where
  "startsWith s [] = True"
| "startsWith [] (k # ks) = False"
| "startsWith (c # cs) (k # ks) = (c = k \<and> startsWith cs ks)"

fun includes_str :: "string \<Rightarrow> string \<Rightarrow> bool" where
  \<comment> \<open>\<^verbatim>\<open>s.includes(k)\<close>: \<open>k\<close> occurs in \<open>s\<close> as a substring\<close>
  "includes_str [] k = startsWith [] k"
| "includes_str (c # cs) k = (startsWith (c # cs) k \<or> includes_str cs k)"

fun splitOn :: "char \<Rightarrow> string \<Rightarrow> string \<Rightarrow> string list" where
  \<comment> \<open>\<^verbatim>\<open>s.split(sep)\<close> for a separator of one character; the second argument is the
      piece read so far\<close>
  "splitOn sep acc [] = [acc]"
| "splitOn sep acc (c # cs) =
     (if c = sep then acc # splitOn sep [] cs else splitOn sep (acc @ [c]) cs)"

fun join :: "string \<Rightarrow> string list \<Rightarrow> string" where
  "join sep [] = []"
| "join sep [x] = x"
| "join sep (x # y # ys) = x @ sep @ join sep (y # ys)"

section \<open>Regular expressions\<close>

text \<open>
  The patterns of the server use literals, alternation, sequencing, and the quantifiers
  \<^verbatim>\<open>*\<close> and \<^verbatim>\<open>+\<close> on a single character class only; groups capture nothing that is
  read. \<^term>\<open>Lit\<close> is a literal word, \<^term>\<open>Star\<close> and \<^term>\<open>Plus\<close> are a greedy
  quantifier on a class.
\<close>

datatype cls =
    Chr char          \<comment> \<open>one character, as \<^verbatim>\<open>\n\<close>\<close>
  | Space             \<comment> \<open>\<^verbatim>\<open>\s\<close>\<close>
  | Dot               \<comment> \<open>\<^verbatim>\<open>.\<close>\<close>
  | NotAlnum          \<comment> \<open>\<^verbatim>\<open>[^a-z0-9]\<close>\<close>
  | NotAlnumSpace     \<comment> \<open>\<^verbatim>\<open>[^a-z0-9\s]\<close>\<close>

datatype rx =
    Lit string
  | One cls
  | Star cls
  | Plus cls
  | Seq "rx list"
  | Alt "rx list"

fun cls_ok :: "cls \<Rightarrow> char \<Rightarrow> bool" where
  "cls_ok (Chr k) c = (c = k)"
| "cls_ok Space c = isWhiteSpace c"
| "cls_ok Dot c = (\<not> isLineTerminator c)"
| "cls_ok NotAlnum c = (\<not> isLowerAlnum c)"
| "cls_ok NotAlnumSpace c = (\<not> isLowerAlnum c \<and> \<not> isWhiteSpace c)"

fun stripPrefix :: "string \<Rightarrow> string \<Rightarrow> string option" where
  "stripPrefix [] s = Some s"
| "stripPrefix (k # ks) [] = None"
| "stripPrefix (k # ks) (c # cs) = (if c = k then stripPrefix ks cs else None)"

fun star_ends :: "cls \<Rightarrow> string \<Rightarrow> string list" where
  \<comment> \<open>what is left of the input after a greedy \<^verbatim>\<open>k*\<close>, longest match first\<close>
  "star_ends k [] = [[]]"
| "star_ends k (c # cs) = (if cls_ok k c then star_ends k cs @ [c # cs] else [c # cs])"

fun rx_ends :: "rx \<Rightarrow> string \<Rightarrow> string list" where
  \<comment> \<open>the backtracking matcher anchored at the start of the input: every way the
      pattern matches a prefix, as the rest of the input, in the order in which the
      backtracking of the source tries them\<close>
  "rx_ends (Lit w) s = (case stripPrefix w s of None \<Rightarrow> [] | Some t \<Rightarrow> [t])"
| "rx_ends (One k) s = (case s of [] \<Rightarrow> [] | c # cs \<Rightarrow> if cls_ok k c then [cs] else [])"
| "rx_ends (Star k) s = star_ends k s"
| "rx_ends (Plus k) s = (case s of [] \<Rightarrow> [] | c # cs \<Rightarrow> if cls_ok k c then star_ends k cs else [])"
| "rx_ends (Seq []) s = [s]"
| "rx_ends (Seq (r # rs)) s = concat (map (rx_ends (Seq rs)) (rx_ends r s))"
| "rx_ends (Alt []) s = []"
| "rx_ends (Alt (r # rs)) s = rx_ends r s @ rx_ends (Alt rs) s"

definition rx_exec :: "rx \<Rightarrow> string \<Rightarrow> string option" where
  \<comment> \<open>the match the engine reports at this position: the first in backtracking order\<close>
  "rx_exec r s = (case rx_ends r s of [] \<Rightarrow> None | t # _ \<Rightarrow> Some t)"

fun rx_search :: "rx \<Rightarrow> string \<Rightarrow> bool" where
  \<comment> \<open>an unanchored search: the pattern matches at some position of the input\<close>
  "rx_search r [] = (rx_ends r [] \<noteq> [])"
| "rx_search r (c # cs) = (rx_ends r (c # cs) \<noteq> [] \<or> rx_search r cs)"

record regex =
  pat :: rx
  ignoreCase :: bool

definition regexTest :: "regex \<Rightarrow> string \<Rightarrow> bool" where
  \<comment> \<open>\<^verbatim>\<open>re.test(s)\<close> for a pattern without the \<^verbatim>\<open>g\<close> flag\<close>
  "regexTest re s = rx_search (pat re) (if ignoreCase re then map asciiLowerChar s else s)"

function splitRx_from :: "rx \<Rightarrow> string \<Rightarrow> string \<Rightarrow> string list" where
  \<comment> \<open>the loop of \<^verbatim>\<open>s.split(re)\<close> for a pattern without capture groups; the second
      argument is the piece read so far. A match that is empty or ends where the piece
      starts moves the position on by one character, as the source's engine does.\<close>
  "splitRx_from r acc [] = [acc]"
| "splitRx_from r acc (c # cs) =
     (case rx_exec r (c # cs) of
        None \<Rightarrow> splitRx_from r (acc @ [c]) cs
      | Some t \<Rightarrow>
          if length t < length (c # cs) then acc # splitRx_from r [] t
          else if acc = [] then splitRx_from r [c] cs
          else acc # splitRx_from r [c] cs)"
  by pat_completeness auto
termination
  by (relation "measure (\<lambda>(r, acc, s). length s)") auto

definition splitRx :: "rx \<Rightarrow> string \<Rightarrow> string list" where
  \<comment> \<open>\<^verbatim>\<open>s.split(re)\<close>: the empty input gives no piece when the pattern matches it and
      one empty piece otherwise\<close>
  "splitRx r s =
     (if s = [] then (case rx_exec r [] of None \<Rightarrow> [[]] | Some t \<Rightarrow> [])
      else splitRx_from r [] s)"

function replaceRx :: "rx \<Rightarrow> string \<Rightarrow> string \<Rightarrow> string" where
  \<comment> \<open>\<^verbatim>\<open>s.replace(re, rep)\<close> for a pattern with the \<^verbatim>\<open>g\<close> flag and a replacement
      without \<^verbatim>\<open>$\<close>\<close>
  "replaceRx r rep [] = (case rx_exec r [] of None \<Rightarrow> [] | Some t \<Rightarrow> rep)"
| "replaceRx r rep (c # cs) =
     (case rx_exec r (c # cs) of
        None \<Rightarrow> c # replaceRx r rep cs
      | Some t \<Rightarrow>
          if length t < length (c # cs) then rep @ replaceRx r rep t
          else rep @ c # replaceRx r rep cs)"
  by pat_completeness auto
termination
  by (relation "measure (\<lambda>(r, rep, s). length s)") auto

section \<open>The category classifier\<close>

definition words :: "string list \<Rightarrow> rx list" where
  "words ws = map Lit ws"

definition category_then :: "string \<Rightarrow> rx" where
  \<comment> \<open>\<^verbatim>\<open>category\s*x\<close>\<close>
  "category_then x = Seq [Lit ''category'', Star Space, Lit x]"

definition classifierRules :: "(rx \<times> string) list" where
  \<comment> \<open>the chain of \<^verbatim>\<open>if (/.../.test(text)) return '...'\<close> of \<^verbatim>\<open>deriveQuestionCategory\<close>,
      in the order of the source\<close>
  "classifierRules =
    [(Alt (words [''dress'', ''uniform'', ''groom'', ''hair'', ''attire'']), ''dressCode''),
     (Alt (words [''attend'', ''absen'', ''tardy'', ''late'']), ''attendance''),
     (Alt (words [''appeal'', ''challenge'', ''dispute'', ''contest'']), ''appeals''),
     (Lit ''bully'', ''bullying''),
     (Lit ''suspend'', ''suspension''),
     (Alt (words [''expel'', ''expulsion'', ''dismiss'']), ''expulsion''),
     (category_then ''c'', ''categoryC''),
     (Alt (category_then ''b'' #
           words [''cheat'', ''plagiar'', ''gambl'', ''alcohol'', ''vandal'']), ''majorOffensesB''),
     (Alt (category_then ''a'' #
           words [''disrespect'', ''fight'', ''pda'', ''cutting'', ''record'']), ''majorOffensesA''),
     (Alt (Lit ''minor'' # Seq [Lit ''id'', Star Space, Lit ''violation''] #
           words [''tardi'', ''loiter'', ''litter'']), ''minorOffenses''),
     (Alt (words [''violation'', ''offense'', ''rule'']), ''violations'')]"

fun firstRule :: "(rx \<times> string) list \<Rightarrow> string \<Rightarrow> string" where
  "firstRule [] text = ''general''"
| "firstRule ((r, cat) # rules) text = (if rx_search r text then cat else firstRule rules text)"

definition deriveQuestionCategory :: "string option \<Rightarrow> string" where
  \<comment> \<open>the argument is \<open>None\<close> when the caller passes \<^verbatim>\<open>undefined\<close> or \<^verbatim>\<open>null\<close>:
      \<^verbatim>\<open>(q || '')\<close>\<close>
  "deriveQuestionCategory q =
     (let text = toLowerCase (case q of None \<Rightarrow> [] | Some s \<Rightarrow> s)
      in firstRule classifierRules text)"

definition allCategories :: "string list" where
  \<comment> \<open>the eleven keys of \<^verbatim>\<open>getCategoryList\<close> and the classifier's default\<close>
  "allCategories =
    [''violations'', ''attendance'', ''dressCode'', ''minorOffenses'', ''majorOffensesA'',
     ''majorOffensesB'', ''categoryC'', ''bullying'', ''appeals'', ''suspension'',
     ''expulsion'', ''general'']"

section \<open>The FAQ table and its resolver\<close>

record faqItem =
  faq_q :: regex
  faq_a :: string

record faqEntry =
  faqs :: "faqItem list"
  faqKeywords :: "string list"

definition dressCodeWords :: "rx list" where
  \<comment> \<open>\<^verbatim>\<open>(dress\s*code|uniform|groom)\<close>\<close>
  "dressCodeWords = [Seq [Lit ''dress'', Star Space, Lit ''code''], Lit ''uniform'', Lit ''groom'']"

definition sanctionWords :: "rx list" where
  \<comment> \<open>\<^verbatim>\<open>(violate|violation|break|penalt|penalty|sanction|consequence)\<close>\<close>
  "sanctionWords =
     words [''violate'', ''violation'', ''break'', ''penalt'', ''penalty'', ''sanction'',
            ''consequence'']"

definition dressCodeSanctionsPattern :: regex where
  "dressCodeSanctionsPattern =
     \<lparr>pat = Alt
        [Seq [Seq [Lit ''what'', Plus Space, Lit ''happens'', Plus Space, Lit ''if''],
              Plus Space, Star Dot, Lit ''dress'', Star Space, Lit ''code''],
         Seq [Alt sanctionWords, Star Dot, Alt dressCodeWords],
         Seq [Alt dressCodeWords, Star Dot, Alt sanctionWords]],
      ignoreCase = True\<rparr>"

definition whatIsDressCodePattern :: regex where
  \<comment> \<open>\<^verbatim>\<open>/what\s+is\s+the\s+dress\s*code|uniform|groom/i\<close>\<close>
  "whatIsDressCodePattern =
     \<lparr>pat = Alt
        [Seq [Lit ''what'', Plus Space, Lit ''is'', Plus Space, Lit ''the'', Plus Space,
              Lit ''dress'', Star Space, Lit ''code''],
         Lit ''uniform'', Lit ''groom''],
      ignoreCase = True\<rparr>"

definition anything :: regex where
  \<comment> \<open>\<^verbatim>\<open>/.*/\<close>\<close>
  "anything = \<lparr>pat = Star Dot, ignoreCase = False\<rparr>"

definition nbHyphen :: string where
  \<comment> \<open>the non-breaking hyphen U+2011 of two answer texts. It has no code unit below 256
      and is written as its three UTF-8 bytes; the answers are only handed through.\<close>
  "nbHyphen = [CHR 0xE2, CHR 0x80, CHR 0x91]"

definition dressCodeSanctionsAnswer :: string where
  "dressCodeSanctionsAnswer =
     ''Dress Code sanctions (summary):\<newline>'' @
     ''- 1st offense: reminder/counseling; may issue Disciplinary Notification Form (DNF).\<newline>'' @
     ''- Repeated: Disciplinary Warning Form (DWF) and parent conference.\<newline>'' @
     ''- Further/repeated non'' @ nbHyphen @
     ''compliance: suspension possible; may be treated as Major Offense.\<newline>'' @
     ''Follow grooming rules and uniform policy to avoid escalation.''"

definition whatIsDressCodeAnswer :: string where
  "whatIsDressCodeAnswer =
     ''Students must be presentable and modest.\<newline>'' @
     ''- Boys: navy pants, white polo with school patch, black leather shoes, clean 2x3/3x4 haircut.\<newline>'' @
     ''- Girls: gray/white checkered skirt, white blouse with patch, ribbon/tie, black shoes.\<newline>'' @
     ''PE uniforms only on PE days; ID must be worn at all times.''"

definition dressCodeHighlights :: string where
  "dressCodeHighlights =
     ''Dress Code highlights:\<newline>'' @
     ''- Wear school uniform and ID at all times.\<newline>'' @
     ''- Follow grooming rules (clean haircut; no make'' @ nbHyphen @
     ''up, long/polished nails, jewelry/piercings, tattoos).\<newline>'' @
     ''- PE uniform only on PE days.''"

definition CHATBOT_FAQ :: "(string \<times> faqEntry) list" where
  "CHATBOT_FAQ =
    [(''dressCode'',
      \<lparr>faqs = [\<lparr>faq_q = dressCodeSanctionsPattern, faq_a = dressCodeSanctionsAnswer\<rparr>,
               \<lparr>faq_q = whatIsDressCodePattern, faq_a = whatIsDressCodeAnswer\<rparr>,
               \<lparr>faq_q = anything, faq_a = dressCodeHighlights\<rparr>],
       faqKeywords = [''dress'', ''uniform'', ''groom'', ''haircut'', ''attire'', ''clothing'']\<rparr>),
     (''attendance'',
      \<lparr>faqs = [\<lparr>faq_q = anything,
                faq_a = ''Absences over 20% of class days may lead to failing grade unless excused. Provide excuse letter/medical certificate; prolonged absences require parental notice.''\<rparr>],
       faqKeywords = [''attendance'', ''absent'', ''tardy'', ''late'']\<rparr>),
     (''violations'',
      \<lparr>faqs = [\<lparr>faq_q = anything,
                faq_a = ''Violations are classified as Minor Offenses, Major Offenses (Category A/B), and Category C (Destructive & Harmful). Sanctions escalate with repeats and severity.''\<rparr>],
       faqKeywords = [''violation'', ''offense'', ''rule'']\<rparr>)]"

fun firstMatch :: "faqItem list \<Rightarrow> string \<Rightarrow> string option" where
  \<comment> \<open>\<^verbatim>\<open>for (const item of entry.faqs) if (item.q.test(question)) return item.a\<close>\<close>
  "firstMatch [] question = None"
| "firstMatch (item # items) question =
     (if regexTest (faq_q item) question then Some (faq_a item) else firstMatch items question)"

definition getFAQAnswer :: "string \<Rightarrow> string \<Rightarrow> string option" where
  \<comment> \<open>\<open>None\<close> is the \<^verbatim>\<open>null\<close> of the source. The category is looked up among the
      table's own keys. This is the source's \<^verbatim>\<open>CHATBOT_FAQ[category]\<close> for the twelve
      categories and for every name that the object does not have at all. For a name
      that the object literal inherits (\<^verbatim>\<open>constructor\<close>, \<^verbatim>\<open>toString\<close>, ...) the
      source finds a value without \<^verbatim>\<open>faqs\<close> and throws; these names are outside the
      model, and every statement below about a missing entry is made for the members
      of \<^term>\<open>allCategories\<close> only.\<close>
  "getFAQAnswer category question =
     (case map_of CHATBOT_FAQ category of
        None \<Rightarrow> None
      | Some entry \<Rightarrow>
          (case firstMatch (faqs entry) question of
             Some ans \<Rightarrow> Some ans
           | None \<Rightarrow>
               (case faqs entry of
                  [] \<Rightarrow> None
                | item # _ \<Rightarrow> if faq_a item = [] then None else Some (faq_a item))))"

section \<open>The plain passage ranker\<close>

record options =
  maxPassages :: "int option"
  minLen :: "int option"

record scoredPassage =
  idx :: nat
  score :: nat
  ptext :: string

definition normalize :: "string \<Rightarrow> string" where
  "normalize s =
     trim (replaceRx (Plus Space) '' '' (replaceRx (One NotAlnumSpace) '' '' (toLowerCase s)))"

definition stopwords :: "string list" where
  "stopwords =
    [''the'', ''a'', ''an'', ''and'', ''or'', ''but'', ''if'', ''then'', ''else'', ''for'', ''to'',
     ''of'', ''in'', ''on'', ''at'', ''by'', ''with'', ''from'', ''as'', ''is'', ''are'', ''was'',
     ''were'', ''be'', ''being'', ''been'', ''this'', ''that'', ''these'', ''those'', ''it'', ''its'',
     ''do'', ''does'', ''did'', ''can'', ''could'', ''should'', ''would'', ''may'', ''might'',
     ''will'', ''shall'', ''your'', ''you'', ''we'', ''our'', ''they'', ''their'']"

definition questionTokens :: "string \<Rightarrow> string list" where
  \<comment> \<open>\<^verbatim>\<open>qTokens\<close>\<close>
  "questionTokens question =
     filter (\<lambda>t. t \<noteq> [] \<and> t \<notin> set stopwords) (splitOn (CHR '' '') [] (normalize question))"

fun bigrams :: "string list \<Rightarrow> string list" where
  \<comment> \<open>\<^verbatim>\<open>ts[i] + ' ' + ts[i+1]\<close> for every \<open>i\<close> below \<^verbatim>\<open>ts.length - 1\<close>\<close>
  "bigrams (t # u # ts) = (t @ '' '' @ u) # bigrams (u # ts)"
| "bigrams ts = []"

definition passageTokens :: "string \<Rightarrow> string list" where
  \<comment> \<open>\<^verbatim>\<open>pTokens\<close>\<close>
  "passageTokens p = filter (\<lambda>t. t \<noteq> []) (splitOn (CHR '' '') [] (normalize p))"

definition unigramScore :: "string list \<Rightarrow> string list \<Rightarrow> nat" where
  "unigramScore qTokens pTokens = length (filter (\<lambda>t. t \<in> set qTokens) pTokens)"

definition bigramScore :: "string list \<Rightarrow> string list \<Rightarrow> nat" where
  "bigramScore qBigrams pTokens = 2 * length (filter (\<lambda>bg. bg \<in> set qBigrams) (bigrams pTokens))"

definition distinctOverlap :: "string list \<Rightarrow> string list \<Rightarrow> nat" where
  "distinctOverlap qTokens pTokens = length (remdups (filter (\<lambda>t. t \<in> set qTokens) pTokens))"

definition passageScore :: "string \<Rightarrow> string \<Rightarrow> nat" where
  \<comment> \<open>the \<^verbatim>\<open>score\<close> that the ranker gives paragraph \<open>p\<close> for a question\<close>
  "passageScore question p =
     (let qTokens = questionTokens question;
          qBigrams = bigrams qTokens;
          pTokens = passageTokens p
      in unigramScore qTokens pTokens + bigramScore qBigrams pTokens
         + distinctOverlap qTokens pTokens)"

definition paragraphSeparator :: rx where
  \<comment> \<open>\<^verbatim>\<open>/\n\s*\n+/\<close>\<close>
  "paragraphSeparator = Seq [One (Chr (CHR 0x0A)), Star Space, Plus (Chr (CHR 0x0A))]"

definition paragraphs :: "string \<Rightarrow> int \<Rightarrow> string list" where
  "paragraphs fullText minLength =
     filter (\<lambda>p. minLength \<le> int (length p)) (map trim (splitRx paragraphSeparator fullText))"

definition sortByScoreDesc :: "('a \<Rightarrow> nat) \<Rightarrow> 'a list \<Rightarrow> 'a list" where
  \<comment> \<open>\<^verbatim>\<open>xs.sort((a, b) => b.score - a.score)\<close>: the sort of the language is stable\<close>
  "sortByScoreDesc f xs = sort_key (\<lambda>x. - int (f x)) xs"

definition slice0 :: "int \<Rightarrow> 'a list \<Rightarrow> 'a list" where
  \<comment> \<open>\<^verbatim>\<open>xs.slice(0, n)\<close>: a negative \<open>n\<close> counts from the end\<close>
  "slice0 n xs = (if n < 0 then take (nat (int (length xs) + n)) xs else take (nat n) xs)"

definition scoredParagraphs :: "string \<Rightarrow> string list \<Rightarrow> scoredPassage list" where
  \<comment> \<open>\<^verbatim>\<open>scored\<close>, before it is sorted\<close>
  "scoredParagraphs question ps =
     map (\<lambda>(i, p). \<lparr>idx = i, score = passageScore question p, ptext = p\<rparr>) (enumerate 0 ps)"

definition effectiveMaxPassages :: "options \<Rightarrow> int" where
  \<comment> \<open>\<^verbatim>\<open>maxPassages = 3\<close> in the destructuring of the options\<close>
  "effectiveMaxPassages opts = (case maxPassages opts of None \<Rightarrow> 3 | Some m \<Rightarrow> m)"

definition effectiveMinLen :: "options \<Rightarrow> int" where
  \<comment> \<open>\<^verbatim>\<open>minLen = 40\<close> in the destructuring of the options\<close>
  "effectiveMinLen opts = (case minLen opts of None \<Rightarrow> 40 | Some m \<Rightarrow> m)"

definition topScored :: "string \<Rightarrow> string option \<Rightarrow> options \<Rightarrow> scoredPassage list" where
  \<comment> \<open>\<^verbatim>\<open>top\<close>: the records whose texts the ranker returns. The document is \<open>None\<close> when
      the caller passes \<^verbatim>\<open>undefined\<close> or \<^verbatim>\<open>null\<close>.\<close>
  "topScored question fullText opts =
     (case fullText of
        None \<Rightarrow> []
      | Some doc \<Rightarrow>
          if question = [] \<or> doc = [] then []
          else filter (\<lambda>s. 0 < score s)
                 (slice0 (effectiveMaxPassages opts)
                    (sortByScoreDesc score
                       (scoredParagraphs question (paragraphs doc (effectiveMinLen opts))))))"

definition extractTopHandbookPassages :: "string \<Rightarrow> string option \<Rightarrow> options \<Rightarrow> string list" where
  "extractTopHandbookPassages question fullText opts = map ptext (topScored question fullText opts)"

definition defaultOptions :: options where
  \<comment> \<open>\<^verbatim>\<open>options = {}\<close>\<close>
  "defaultOptions = \<lparr>maxPassages = None, minLen = None\<rparr>"

section \<open>The focused passage ranker\<close>

definition focusedMaxPassages :: "options \<Rightarrow> int" where
  \<comment> \<open>\<^verbatim>\<open>options.maxPassages || 3\<close>: zero is falsy\<close>
  "focusedMaxPassages opts =
     (case maxPassages opts of None \<Rightarrow> 3 | Some m \<Rightarrow> if m = 0 then 3 else m)"

definition focusedParagraphs :: "string \<Rightarrow> string list" where
  \<comment> \<open>\<^verbatim>\<open>paras\<close>: \<^verbatim>\<open>filter(Boolean)\<close> drops the empty paragraphs only\<close>
  "focusedParagraphs fullText =
     filter (\<lambda>p. p \<noteq> []) (map trim (splitRx paragraphSeparator fullText))"

definition focusedPool :: "string list \<Rightarrow> string list \<Rightarrow> string list" where
  \<comment> \<open>\<^verbatim>\<open>pool\<close>\<close>
  "focusedPool lowerFocus paras =
     (if lowerFocus \<noteq> [] then
        (let pool = filter (\<lambda>p. list_ex (\<lambda>k. includes_str (toLowerCase p) k) lowerFocus) paras
         in if pool = [] then paras else pool)
      else paras)"

definition focusedTokens :: "string \<Rightarrow> string list" where
  \<comment> \<open>\<^verbatim>\<open>qTokens\<close> of the focused ranker\<close>
  "focusedTokens question =
     filter (\<lambda>t. t \<noteq> []) (splitRx (Plus NotAlnum) (toLowerCase question))"

definition focusedScore :: "string list \<Rightarrow> string list \<Rightarrow> string \<Rightarrow> nat" where
  "focusedScore qTokens lowerFocus p =
     (let lp = toLowerCase p
      in 2 * length (filter (\<lambda>t. includes_str lp t) qTokens)
         + length (filter (\<lambda>fk. includes_str lp fk) lowerFocus))"

definition extractTopHandbookPassagesFocused ::
  "string \<Rightarrow> string option \<Rightarrow> string list \<Rightarrow> options \<Rightarrow> string list" where
  "extractTopHandbookPassagesFocused question fullText focusKeywords opts =
     (case fullText of
        None \<Rightarrow> []
      | Some doc \<Rightarrow>
          if doc = [] then []
          else
            (let lowerFocus = map toLowerCase focusKeywords;
                 pool = focusedPool lowerFocus (focusedParagraphs doc);
                 qTokens = focusedTokens question;
                 scored = map (\<lambda>p. (p, focusedScore qTokens lowerFocus p)) pool
             in map fst
                  (filter (\<lambda>s. 0 < snd s)
                     (slice0 (focusedMaxPassages opts) (sortByScoreDesc snd scored)))))"

section \<open>The rate limiter\<close>

text \<open>
  \<^verbatim>\<open>requestCounts\<close> is a \<^verbatim>\<open>Map\<close> from the start of a minute, in milliseconds, to the
  number of requests recorded in that minute: its entries in the order of insertion.
\<close>

type_synonym requestCounts = "(int \<times> nat) list"

definition RATE_LIMIT_WINDOW :: int where
  "RATE_LIMIT_WINDOW = 60000"

definition MAX_REQUESTS_PER_WINDOW :: nat where
  "MAX_REQUESTS_PER_WINDOW = 10"

definition cleanOld :: "int \<Rightarrow> requestCounts \<Rightarrow> requestCounts" where
  \<comment> \<open>the loop that deletes the entries older than the window\<close>
  "cleanOld now counts = filter (\<lambda>(timestamp, count). \<not> timestamp < now - RATE_LIMIT_WINDOW) counts"

definition currentRequests :: "requestCounts \<Rightarrow> nat" where
  "currentRequests counts = sum_list (map snd counts)"

fun mapSet :: "int \<Rightarrow> nat \<Rightarrow> requestCounts \<Rightarrow> requestCounts" where
  \<comment> \<open>\<^verbatim>\<open>Map.set\<close>: a key that is present keeps its place, a new key goes last\<close>
  "mapSet k v [] = [(k, v)]"
| "mapSet k v ((k', v') # kvs) = (if k' = k then (k, v) # kvs else (k', v') # mapSet k v kvs)"

definition rateLimitMessage :: string where
  "rateLimitMessage = ''Rate limit exceeded. Please wait before making another request.''"

definition checkRateLimit :: "int \<Rightarrow> requestCounts \<Rightarrow> (string + unit) \<times> requestCounts" where
  \<comment> \<open>\<open>now\<close> is \<^verbatim>\<open>Date.now()\<close>; \<open>Inl\<close> is the error thrown. The old entries are deleted
      before the error is thrown.\<close>
  "checkRateLimit now counts =
     (let cleaned = cleanOld now counts
      in if MAX_REQUESTS_PER_WINDOW \<le> currentRequests cleaned then (Inl rateLimitMessage, cleaned)
         else
           (let currentMinute = (now div 60000) * 60000;
                n = (case map_of cleaned currentMinute of None \<Rightarrow> 0 | Some c \<Rightarrow> c)
            in (Inr (), mapSet currentMinute (n + 1) cleaned)))"

section \<open>The two endpoints\<close>

text \<open>
  The \<^verbatim>\<open>question\<close> of a request body is any JSON value, or \<^term>\<open>JUndefined\<close> when the
  body has none. \<^term>\<open>truthy\<close> is the test \<^verbatim>\<open>!question\<close> negated; the string is the
  only value whose \<^verbatim>\<open>typeof\<close> is \<^verbatim>\<open>'string'\<close>.
\<close>

datatype jsvalue = JUndefined | JNull | JBool bool | JNum int | JStr string | JObject

fun truthy :: "jsvalue \<Rightarrow> bool" where
  "truthy JUndefined = False"
| "truthy JNull = False"
| "truthy (JBool b) = b"
| "truthy (JNum n) = (n \<noteq> 0)"
| "truthy (JStr s) = (s \<noteq> [])"
| "truthy JObject = True"

datatype body =
    ErrorBody string                                \<comment> \<open>\<^verbatim>\<open>{ error }\<close>\<close>
  | AnswerBody string                               \<comment> \<open>\<^verbatim>\<open>{ answer }\<close>\<close>
  | ChatBody string "string list" string string     \<comment> \<open>\<^verbatim>\<open>{ text, suggestions, category, source }\<close>\<close>

datatype response = Response (status: nat) (body: body)

definition notFoundText :: string where
  "notFoundText = ''No directly relevant section found in the handbook for that question.''"

definition paragraphJoin :: string where
  \<comment> \<open>\<^verbatim>\<open>'\n\n'\<close>\<close>
  "paragraphJoin = [CHR 0x0A, CHR 0x0A]"

text \<open>
  The handbook is read by \<^verbatim>\<open>fs.readFileSync\<close> and \<^verbatim>\<open>pdfParse\<close>, which are not part
  of the repository: their outcome is an argument of the handlers, \<open>Inl\<close> the message of
  the error thrown and \<open>Inr\<close> the text \<^verbatim>\<open>data.text || ''\<close>.
\<close>

definition askHandbook ::
  "requestCounts \<Rightarrow> int \<Rightarrow> jsvalue \<Rightarrow> string + string \<Rightarrow> response \<times> requestCounts" where
  \<comment> \<open>\<^verbatim>\<open>POST /api/ask-handbook\<close>: the rate limiter's map and the clock go in, the response
      and the map come out\<close>
  "askHandbook counts now question document =
     (case checkRateLimit now counts of
        (Inl message, counts') \<Rightarrow> (Response 500 (ErrorBody message), counts')
      | (Inr _, counts') \<Rightarrow>
          if \<not> truthy question
          then (Response 400 (ErrorBody ''Question is required.''), counts')
          else
            (case question of
               JStr s \<Rightarrow>
                 if length (trim s) = 0
                 then (Response 400 (ErrorBody ''Question is required.''), counts')
                 else
                   (case document of
                      Inl message \<Rightarrow> (Response 500 (ErrorBody message), counts')
                    | Inr pdfText \<Rightarrow>
                        (let passages = extractTopHandbookPassages s (Some pdfText)
                                          \<lparr>maxPassages = Some 3, minLen = None\<rparr>
                         in if length passages = 0
                            then (Response 200 (AnswerBody notFoundText), counts')
                            else (Response 200 (AnswerBody (join paragraphJoin passages)),
                                  counts')))
             | _ \<Rightarrow> (Response 400 (ErrorBody ''Question is required.''), counts')))"

definition suggestionTable :: "(string \<times> string list) list" where
  "suggestionTable =
    [(''violations'', [''What are the violation categories?'', ''What happens if I break a rule?'',
                       ''How are violations classified?'']),
     (''attendance'', [''What is the attendance policy?'', ''How many absences are allowed?'',
                       ''What are sanctions for tardiness?'']),
     (''dressCode'', [''What is the dress code?'', ''What are the grooming rules?'',
                      ''What happens if I violate dress code?'']),
     (''minorOffenses'', [''What are minor offenses?'', ''Sanctions for minor violations'',
                          ''Examples of minor offenses'']),
     (''majorOffensesA'', [''What are Major Offenses Category A?'',
                           ''Sanctions for Category A offenses'',
                           ''What happens for repeated violations?'']),
     (''majorOffensesB'', [''What are Major Offenses Category B?'',
                           ''What is the penalty for cheating?'',
                           ''Sanctions for Category B offenses'']),
     (''categoryC'', [''What are Category C offenses?'', ''Consequences for drugs or weapons?'',
                      ''Fraternities or hazing consequences'']),
     (''bullying'', [''What happens if I bully someone?'', ''How is bullying handled?'',
                     ''Anti-bullying policy'']),
     (''suspension'', [''What is the suspension policy?'', ''How long can I be suspended?'',
                       ''What happens during suspension?'']),
     (''expulsion'', [''What is expulsion?'', ''When can I be expelled?'',
                      ''Consequences of expulsion'']),
     (''appeals'', [''How do I appeal a decision?'', ''What is the appeals process?'',
                    ''Can I challenge a violation?'']),
     (''general'', [''What are the violation types?'', ''What is the dress code?'',
                    ''What are the attendance rules?''])]"

definition getSuggestionsForCategory :: "string \<Rightarrow> string list" where
  \<comment> \<open>\<^verbatim>\<open>s[cat] || s.general\<close>, for the twelve categories and for every name that the
      object does not have at all; the names that the object literal inherits are outside
      the model. The handlers apply it to results of the classifier only.\<close>
  "getSuggestionsForCategory cat =
     (case map_of suggestionTable cat of
        Some xs \<Rightarrow> xs
      | None \<Rightarrow> [''What are the violation types?'', ''What is the dress code?'',
                 ''What are the attendance rules?''])"

definition focusKeywordsOf :: "string \<Rightarrow> string list" where
  \<comment> \<open>the focus words of the category, or none: \<^verbatim>\<open>CHATBOT_FAQ[cat]?\<close>\<close>
  "focusKeywordsOf cat = (case map_of CHATBOT_FAQ cat of None \<Rightarrow> [] | Some entry \<Rightarrow> faqKeywords entry)"

definition handbookContext :: "string \<Rightarrow> string \<Rightarrow> string + string \<Rightarrow> string" where
  \<comment> \<open>\<^verbatim>\<open>handbookText\<close>: the inner \<^verbatim>\<open>try { ... } catch {}\<close> leaves it empty when the
      handbook cannot be read\<close>
  "handbookContext cat question document =
     (case document of
        Inl message \<Rightarrow> []
      | Inr pdfText \<Rightarrow>
          join paragraphJoin
            (extractTopHandbookPassagesFocused question (Some pdfText) (focusKeywordsOf cat)
               \<lparr>maxPassages = Some 2, minLen = None\<rparr>))"

definition chatbotAsk :: "jsvalue \<Rightarrow> string + string \<Rightarrow> response" where
  \<comment> \<open>\<^verbatim>\<open>POST /api/chatbot/ask\<close>; the question is \<^term>\<open>JUndefined\<close> when the body has
      none\<close>
  "chatbotAsk question document =
     (if \<not> truthy question then Response 400 (ErrorBody ''Question is required'')
      else
        (case question of
          JStr s \<Rightarrow>
            (let cat = deriveQuestionCategory (Some s);
                 faqAnswer = getFAQAnswer cat s;
                 handbookText = handbookContext cat s document;
                 finalText =
                   (case faqAnswer of
                      Some ans \<Rightarrow> if ans \<noteq> [] then ans
                                  else if handbookText \<noteq> [] then handbookText else notFoundText
                    | None \<Rightarrow> if handbookText \<noteq> [] then handbookText else notFoundText);
                 source =
                   (case faqAnswer of
                      Some ans \<Rightarrow> if ans \<noteq> [] then ''FAQ'' else ''Student Handbook''
                    | None \<Rightarrow> ''Student Handbook'')
             in Response 200 (ChatBody finalText (getSuggestionsForCategory cat) cat source))
        | _ \<Rightarrow> Response 400 (ErrorBody ''Question is required'')))"

fun missingOrBlank :: "jsvalue \<Rightarrow> bool" where
  \<comment> \<open>the requests that the validation of \<^verbatim>\<open>POST /api/ask-handbook\<close> refuses: the
      question is missing, is not a string, or is empty after \<^verbatim>\<open>trim\<close>\<close>
  "missingOrBlank (JStr s) = (trim s = [])"
| "missingOrBlank v = True"

section \<open>Facts about the classifier and the FAQ resolver\<close>

lemma firstRule_range: "firstRule rules text \<in> insert ''general'' (snd ` set rules)"
proof (induction rules)
  case Nil
  show ?case by simp
next
  case (Cons rc rules)
  obtain r c where rc: "rc = (r, c)" by (cases rc)
  show ?case
  proof (cases "rx_search r text")
    case True
    then show ?thesis by (simp add: rc)
  next
    case False
    with Cons.IH show ?thesis unfolding rc by (simp only: firstRule.simps if_False) force
  qed
qed

lemma firstRule_no_match:
  "\<forall>(r, c) \<in> set rules. \<not> rx_search r text \<Longrightarrow> firstRule rules text = ''general''"
  by (induction rules) auto

lemma general_category: "''general'' \<in> set allCategories"
  by (simp add: allCategories_def)

lemma classifier_categories: "snd ` set classifierRules \<subseteq> set allCategories"
  by (simp add: classifierRules_def allCategories_def)

lemma star_ends_nonempty: "star_ends k s \<noteq> []"
  by (induction s) auto

lemma anything_matches: "regexTest anything s"
  by (cases s) (simp_all add: regexTest_def anything_def star_ends_nonempty)

lemma answers_nonempty:
  "dressCodeSanctionsAnswer \<noteq> []" "whatIsDressCodeAnswer \<noteq> []" "dressCodeHighlights \<noteq> []"
  by (simp_all add: dressCodeSanctionsAnswer_def whatIsDressCodeAnswer_def dressCodeHighlights_def)

lemma faq_dressCode:
  "getFAQAnswer ''dressCode'' question =
     (if regexTest dressCodeSanctionsPattern question then Some dressCodeSanctionsAnswer
      else if regexTest whatIsDressCodePattern question then Some whatIsDressCodeAnswer
      else Some dressCodeHighlights)"
  by (simp add: getFAQAnswer_def CHATBOT_FAQ_def anything_matches)

lemma faq_dressCode_nonempty:
  "\<exists>ans. getFAQAnswer ''dressCode'' question = Some ans \<and> ans \<noteq> []"
  by (simp add: faq_dressCode answers_nonempty)

lemma faq_attendance_nonempty:
  "\<exists>ans. getFAQAnswer ''attendance'' question = Some ans \<and> ans \<noteq> []"
  by (simp add: getFAQAnswer_def CHATBOT_FAQ_def anything_matches)

lemma faq_violations_nonempty:
  "\<exists>ans. getFAQAnswer ''violations'' question = Some ans \<and> ans \<noteq> []"
  by (simp add: getFAQAnswer_def CHATBOT_FAQ_def anything_matches)

lemma faq_unregistered:
  "c \<in> set allCategories \<Longrightarrow>
   c \<noteq> ''dressCode'' \<Longrightarrow> c \<noteq> ''attendance'' \<Longrightarrow> c \<noteq> ''violations''
   \<Longrightarrow> getFAQAnswer c question = None"
  by (simp add: getFAQAnswer_def CHATBOT_FAQ_def)

lemma faq_answer_nonempty: "getFAQAnswer c question = Some ans \<Longrightarrow> ans \<noteq> []"
proof -
  assume h: "getFAQAnswer c question = Some ans"
  consider "c = ''dressCode''" | "c = ''attendance''" | "c = ''violations''"
    | "c \<noteq> ''dressCode''" "c \<noteq> ''attendance''" "c \<noteq> ''violations''"
    by argo
  then show ?thesis
  proof cases
    case 1
    with faq_dressCode_nonempty [of question] h show ?thesis by simp
  next
    case 2
    with faq_attendance_nonempty [of question] h show ?thesis by simp
  next
    case 3
    with faq_violations_nonempty [of question] h show ?thesis by simp
  next
    case 4
    then have "map_of CHATBOT_FAQ c = None" by (simp add: CHATBOT_FAQ_def)
    with h show ?thesis by (simp add: getFAQAnswer_def)
  qed
qed

section \<open>Claims about the classifier and the FAQ resolver\<close>

text \<open>
  C1, as amended. The claim is that the FAQ resolver returns a non-empty answer for each
  of the twelve categories of the classifier. The table \<^verbatim>\<open>CHATBOT_FAQ\<close> registers three
  of them. For \<^verbatim>\<open>dressCode\<close>, \<^verbatim>\<open>attendance\<close> and \<^verbatim>\<open>violations\<close> the resolver
  returns a non-empty answer for every question, the empty one included, because the last
  rule of each matches everything; for each of the other nine categories of the
  classifier it returns \<^verbatim>\<open>null\<close> for every question.
\<close>

theorem faq_registered_categories_answer:
  "(c = ''dressCode'' \<or> c = ''attendance'' \<or> c = ''violations'' \<longrightarrow>
      (\<exists>ans. getFAQAnswer c question = Some ans \<and> ans \<noteq> []))
   \<and> (c \<in> set allCategories
        \<and> c \<noteq> ''dressCode'' \<and> c \<noteq> ''attendance'' \<and> c \<noteq> ''violations'' \<longrightarrow>
      getFAQAnswer c question = None)"
proof (intro conjI impI)
  assume "c = ''dressCode'' \<or> c = ''attendance'' \<or> c = ''violations''"
  then show "\<exists>ans. getFAQAnswer c question = Some ans \<and> ans \<noteq> []"
  proof (elim disjE)
    assume "c = ''dressCode''"
    then show ?thesis by (simp only: faq_dressCode_nonempty)
  next
    assume "c = ''attendance''"
    then show ?thesis by (simp only: faq_attendance_nonempty)
  next
    assume "c = ''violations''"
    then show ?thesis by (simp only: faq_violations_nonempty)
  qed
next
  assume "c \<in> set allCategories
        \<and> c \<noteq> ''dressCode'' \<and> c \<noteq> ''attendance'' \<and> c \<noteq> ''violations''"
  then show "getFAQAnswer c question = None" by (elim conjE) (rule faq_unregistered)
qed

theorem faq_registered_categories_answer_witness:
  "(\<exists>ans. getFAQAnswer ''dressCode'' '''' = Some ans \<and> ans \<noteq> [])
   \<and> ''bullying'' \<in> set allCategories
   \<and> getFAQAnswer ''bullying'' '''' = None"
proof -
  have member: "''bullying'' \<in> set allCategories" by (simp add: allCategories_def)
  from member
    faq_registered_categories_answer [where c = "''dressCode''" and question = "''''"]
    faq_registered_categories_answer [where c = "''bullying''" and question = "''''"]
  show ?thesis by simp
qed

text \<open>
  C1, the counterexample. \<^verbatim>\<open>general\<close> is one of the twelve categories, the classifier
  returns it for the empty question, and the resolver has no answer for it.
\<close>

theorem faq_general_counterexample:
  "''general'' \<in> set allCategories \<and> deriveQuestionCategory (Some '''') = ''general''
   \<and> getFAQAnswer ''general'' '''' = None"
  by code_simp

text \<open>
  C5. The classifier is a function of the question alone. For every question, and for an
  absent one, its result is one of the twelve categories; it is \<^verbatim>\<open>general\<close> when
  no rule of the chain matches the lower-cased question, and \<^verbatim>\<open>general\<close> for an
  absent question.
\<close>

theorem classifier_total:
  "deriveQuestionCategory q \<in> set allCategories
   \<and> ((\<forall>(r, c) \<in> set classifierRules.
          \<not> rx_search r (toLowerCase (case q of None \<Rightarrow> [] | Some s \<Rightarrow> s)))
        \<longrightarrow> deriveQuestionCategory q = ''general'')
   \<and> deriveQuestionCategory None = ''general''"
proof (intro conjI impI)
  have "deriveQuestionCategory q \<in> insert ''general'' (snd ` set classifierRules)"
    unfolding deriveQuestionCategory_def Let_def by (rule firstRule_range)
  then show "deriveQuestionCategory q \<in> set allCategories"
  proof (rule insertE)
    assume "deriveQuestionCategory q = ''general''"
    then show ?thesis using general_category by (simp only:)
  next
    assume "deriveQuestionCategory q \<in> snd ` set classifierRules"
    then show ?thesis by (rule subsetD [OF classifier_categories])
  qed
next
  assume "\<forall>(r, c) \<in> set classifierRules.
            \<not> rx_search r (toLowerCase (case q of None \<Rightarrow> [] | Some s \<Rightarrow> s))"
  then show "deriveQuestionCategory q = ''general''"
    unfolding deriveQuestionCategory_def Let_def by (rule firstRule_no_match)
next
  show "deriveQuestionCategory None = ''general''" by code_simp
qed

theorem classifier_total_witness:
  "filter (\<lambda>(r, c). rx_search r (toLowerCase ''Hello there'')) classifierRules = []
   \<and> deriveQuestionCategory (Some ''Hello there'') = ''general''"
proof -
  have none: "filter (\<lambda>(r, c). rx_search r (toLowerCase ''Hello there'')) classifierRules = []"
    by code_simp
  then have h: "\<forall>(r, c) \<in> set classifierRules. \<not> rx_search r (toLowerCase ''Hello there'')"
    by (simp only: filter_empty_conv) fast
  have "(\<forall>(r, c) \<in> set classifierRules.
           \<not> rx_search r (toLowerCase (case Some ''Hello there'' of None \<Rightarrow> [] | Some s \<Rightarrow> s)))
        \<longrightarrow> deriveQuestionCategory (Some ''Hello there'') = ''general''"
    using classifier_total [of "Some ''Hello there''"] by (elim conjE)
  with h none show ?thesis by (simp only: option.case simp_thms)
qed

text \<open>
  C6. The question \<^verbatim>\<open>what happens if I violate the dress code category b\<close> is classified
  as \<^verbatim>\<open>dressCode\<close>. Three rules of the chain match it, the dress-code rule, the
  attendance rule and the category-B rule, in this order, and the first one wins.
\<close>

theorem dress_code_precedes_category_b:
  "deriveQuestionCategory (Some ''what happens if I violate the dress code category b'') = ''dressCode''
   \<and> map snd (filter (\<lambda>(r, c). rx_search r
         (toLowerCase ''what happens if I violate the dress code category b'')) classifierRules)
     = [''dressCode'', ''attendance'', ''majorOffensesB'']"
  by code_simp

section \<open>Facts about the endpoints\<close>

lemma chatbotAsk_string:
  "s \<noteq> [] \<Longrightarrow>
   chatbotAsk (JStr s) document =
     Response 200
       (ChatBody
          (case getFAQAnswer (deriveQuestionCategory (Some s)) s of
             Some ans \<Rightarrow> ans
           | None \<Rightarrow>
               if handbookContext (deriveQuestionCategory (Some s)) s document \<noteq> []
               then handbookContext (deriveQuestionCategory (Some s)) s document
               else notFoundText)
          (getSuggestionsForCategory (deriveQuestionCategory (Some s)))
          (deriveQuestionCategory (Some s))
          (case getFAQAnswer (deriveQuestionCategory (Some s)) s of
             Some ans \<Rightarrow> ''FAQ''
           | None \<Rightarrow> ''Student Handbook''))"
proof (cases "getFAQAnswer (deriveQuestionCategory (Some s)) s")
  case None
  assume "s \<noteq> []"
  with None show ?thesis by (simp add: chatbotAsk_def Let_def)
next
  case (Some ans)
  assume "s \<noteq> []"
  moreover from Some have "ans \<noteq> []" by (rule faq_answer_nonempty)
  ultimately show ?thesis using Some by (simp add: chatbotAsk_def Let_def)
qed

lemma checkRateLimit_throws:
  "MAX_REQUESTS_PER_WINDOW \<le> currentRequests (cleanOld now counts) \<Longrightarrow>
   checkRateLimit now counts = (Inl rateLimitMessage, cleanOld now counts)"
  by (simp add: checkRateLimit_def Let_def)

lemma checkRateLimit_passes:
  "currentRequests (cleanOld now counts) < MAX_REQUESTS_PER_WINDOW \<Longrightarrow>
   \<exists>counts'. checkRateLimit now counts = (Inr (), counts')"
  by (simp add: checkRateLimit_def Let_def)

section \<open>Claims about the endpoints\<close>

text \<open>
  C8. For the question \<^verbatim>\<open>What is the dress code?\<close> the classifier returns
  \<^verbatim>\<open>dressCode\<close>; the sanctions pattern, which is listed first, does not match and the
  pattern \<^verbatim>\<open>what is the dress code\<close> does; whatever the handbook, the response of
  \<^verbatim>\<open>POST /api/chatbot/ask\<close> has status 200, source \<^verbatim>\<open>FAQ\<close> and the answer of that
  pattern as its text, which begins with \<^verbatim>\<open>Students must be presentable and modest.\<close>
\<close>

theorem dress_code_question_end_to_end:
  "deriveQuestionCategory (Some ''What is the dress code?'') = ''dressCode''
   \<and> \<not> regexTest dressCodeSanctionsPattern ''What is the dress code?''
   \<and> regexTest whatIsDressCodePattern ''What is the dress code?''
   \<and> getFAQAnswer ''dressCode'' ''What is the dress code?'' = Some whatIsDressCodeAnswer
   \<and> chatbotAsk (JStr ''What is the dress code?'') document =
       Response 200
         (ChatBody whatIsDressCodeAnswer (getSuggestionsForCategory ''dressCode'')
            ''dressCode'' ''FAQ'')
   \<and> startsWith whatIsDressCodeAnswer ''Students must be presentable and modest.''"
proof -
  have cat: "deriveQuestionCategory (Some ''What is the dress code?'') = ''dressCode''"
    by code_simp
  have no_sanctions: "\<not> regexTest dressCodeSanctionsPattern ''What is the dress code?''"
    by code_simp
  have what_is: "regexTest whatIsDressCodePattern ''What is the dress code?''"
    by code_simp
  have faq: "getFAQAnswer ''dressCode'' ''What is the dress code?'' = Some whatIsDressCodeAnswer"
    by (simp only: faq_dressCode no_sanctions what_is if_True if_False)
  have begins: "startsWith whatIsDressCodeAnswer ''Students must be presentable and modest.''"
    by code_simp
  have "''What is the dress code?'' \<noteq> []" by simp
  from chatbotAsk_string [OF this, of document]
  have "chatbotAsk (JStr ''What is the dress code?'') document =
       Response 200
         (ChatBody whatIsDressCodeAnswer (getSuggestionsForCategory ''dressCode'')
            ''dressCode'' ''FAQ'')"
    by (simp only: cat faq option.case)
  with cat no_sanctions what_is faq begins show ?thesis by (simp only: simp_thms)
qed

text \<open>
  C9, as amended. When the handbook cannot be read, \<^verbatim>\<open>POST /api/ask-handbook\<close> responds
  with status 500 to every request whose question is a string that is not blank.
  \<^verbatim>\<open>POST /api/chatbot/ask\<close> catches the failure: for every non-empty question it responds
  with status 200, and the text is the FAQ answer of the category, or the not-found text
  when the category has none.
\<close>

theorem unreadable_handbook:
  "(trim s \<noteq> [] \<longrightarrow> status (fst (askHandbook counts now (JStr s) (Inl message))) = 500)
   \<and> (s \<noteq> [] \<longrightarrow>
        chatbotAsk (JStr s) (Inl message) =
          Response 200
            (ChatBody
               (case getFAQAnswer (deriveQuestionCategory (Some s)) s of
                  Some ans \<Rightarrow> ans | None \<Rightarrow> notFoundText)
               (getSuggestionsForCategory (deriveQuestionCategory (Some s)))
               (deriveQuestionCategory (Some s))
               (case getFAQAnswer (deriveQuestionCategory (Some s)) s of
                  Some ans \<Rightarrow> ''FAQ'' | None \<Rightarrow> ''Student Handbook'')))"
proof (intro conjI impI)
  assume t: "trim s \<noteq> []"
  then have s: "s \<noteq> []" by (auto simp: trim_def)
  show "status (fst (askHandbook counts now (JStr s) (Inl message))) = 500"
  proof (cases "checkRateLimit now counts")
    case (Pair r counts')
    then show ?thesis using t s by (cases r) (simp_all add: askHandbook_def)
  qed
next
  assume "s \<noteq> []"
  then show "chatbotAsk (JStr s) (Inl message) =
          Response 200
            (ChatBody
               (case getFAQAnswer (deriveQuestionCategory (Some s)) s of
                  Some ans \<Rightarrow> ans | None \<Rightarrow> notFoundText)
               (getSuggestionsForCategory (deriveQuestionCategory (Some s)))
               (deriveQuestionCategory (Some s))
               (case getFAQAnswer (deriveQuestionCategory (Some s)) s of
                  Some ans \<Rightarrow> ''FAQ'' | None \<Rightarrow> ''Student Handbook''))"
    by (simp add: chatbotAsk_string handbookContext_def)
qed

theorem unreadable_handbook_witness:
  "trim ''hello'' \<noteq> [] \<and> ''hello'' \<noteq> []
   \<and> status (fst (askHandbook [] 0 (JStr ''hello'') (Inl ''ENOENT''))) = 500
   \<and> chatbotAsk (JStr ''hello'') (Inl ''ENOENT'') =
       Response 200
         (ChatBody notFoundText (getSuggestionsForCategory ''general'') ''general''
            ''Student Handbook'')"
proof -
  have t: "trim ''hello'' \<noteq> []" by code_simp
  have cat: "deriveQuestionCategory (Some ''hello'') = ''general''" by code_simp
  have faq: "getFAQAnswer ''general'' ''hello'' = None" by code_simp
  from t unreadable_handbook [of "''hello''" "[]" 0 "''ENOENT''"]
  show ?thesis by (simp add: cat faq)
qed

text \<open>
  C9, the counterexample. With an unreadable handbook \<^verbatim>\<open>POST /api/chatbot/ask\<close> answers
  the question \<^verbatim>\<open>hello\<close> with status 200 and the not-found text, not with status 500.
\<close>

theorem chatbot_unreadable_handbook_counterexample:
  "chatbotAsk (JStr ''hello'') (Inl ''ENOENT: no such file or directory'') =
     Response 200
       (ChatBody ''No directly relevant section found in the handbook for that question.''
          [''What are the violation types?'', ''What is the dress code?'',
           ''What are the attendance rules?'']
          ''general'' ''Student Handbook'')"
  by code_simp

text \<open>
  C10. \<^verbatim>\<open>checkRateLimit\<close> throws exactly when the counts that are left after the entries
  older than the window are deleted sum up to ten or more. In such a state
  \<^verbatim>\<open>POST /api/ask-handbook\<close> responds to every request, also one whose question is
  missing or blank, with status 500 and the message of the rate limiter. Below the
  threshold a request whose question is missing or blank gets status 400 and
  \<^verbatim>\<open>Question is required.\<close>
\<close>

theorem rate_limit_before_validation:
  "((\<exists>message counts'. checkRateLimit now counts = (Inl message, counts'))
      = (MAX_REQUESTS_PER_WINDOW \<le> currentRequests (cleanOld now counts)))
   \<and> (MAX_REQUESTS_PER_WINDOW \<le> currentRequests (cleanOld now counts) \<longrightarrow>
        fst (askHandbook counts now question document) = Response 500 (ErrorBody rateLimitMessage))
   \<and> (currentRequests (cleanOld now counts) < MAX_REQUESTS_PER_WINDOW \<and> missingOrBlank question \<longrightarrow>
        fst (askHandbook counts now question document)
          = Response 400 (ErrorBody ''Question is required.''))"
proof (intro conjI impI)
  show "(\<exists>message counts'. checkRateLimit now counts = (Inl message, counts'))
      = (MAX_REQUESTS_PER_WINDOW \<le> currentRequests (cleanOld now counts))"
    by (simp add: checkRateLimit_def Let_def)
next
  assume "MAX_REQUESTS_PER_WINDOW \<le> currentRequests (cleanOld now counts)"
  then show "fst (askHandbook counts now question document)
               = Response 500 (ErrorBody rateLimitMessage)"
    by (simp add: askHandbook_def checkRateLimit_throws)
next
  assume h: "currentRequests (cleanOld now counts) < MAX_REQUESTS_PER_WINDOW \<and> missingOrBlank question"
  then obtain counts' where "checkRateLimit now counts = (Inr (), counts')"
    using checkRateLimit_passes by blast
  with h show "fst (askHandbook counts now question document)
          = Response 400 (ErrorBody ''Question is required.'')"
    by (cases question) (auto simp: askHandbook_def)
qed

theorem rate_limit_before_validation_witness:
  "fold (\<lambda>i counts. snd (checkRateLimit 90000 counts)) [0..<10] [] = [(60000, 10)]
   \<and> MAX_REQUESTS_PER_WINDOW \<le> currentRequests (cleanOld 90000 [(60000, 10)])
   \<and> fst (askHandbook [(60000, 10)] 90000 (JStr ''  '') (Inr ''handbook''))
       = Response 500 (ErrorBody rateLimitMessage)
   \<and> currentRequests (cleanOld 90000 [(0, 10), (60000, 9)]) < MAX_REQUESTS_PER_WINDOW
   \<and> missingOrBlank (JStr ''  '')
   \<and> fst (askHandbook [(0, 10), (60000, 9)] 90000 (JStr ''  '') (Inr ''handbook''))
       = Response 400 (ErrorBody ''Question is required.'')"
proof -
  have a: "MAX_REQUESTS_PER_WINDOW \<le> currentRequests (cleanOld 90000 [(60000, 10)])"
    by code_simp
  have b: "currentRequests (cleanOld 90000 [(0, 10), (60000, 9)]) < MAX_REQUESTS_PER_WINDOW"
    by code_simp
  have c: "missingOrBlank (JStr ''  '')" by code_simp
  have d: "fold (\<lambda>i counts. snd (checkRateLimit 90000 counts)) [0..<10] [] = [(60000, 10)]"
    by code_simp
  from a b c d
    rate_limit_before_validation [of 90000 "[(60000, 10)]" "JStr ''  ''" "Inr ''handbook''"]
    rate_limit_before_validation [of 90000 "[(0, 10), (60000, 9)]" "JStr ''  ''" "Inr ''handbook''"]
  show ?thesis by (simp only: simp_thms)
qed

section \<open>Facts about the rankers\<close>

lemma set_slice0: "set (slice0 n xs) \<subseteq> set xs"
  by (simp add: slice0_def set_take_subset)

lemma length_slice0: "0 \<le> n \<Longrightarrow> int (length (slice0 n xs)) \<le> n"
  by (simp add: slice0_def)

lemma sorted_wrt_slice0: "sorted_wrt R xs \<Longrightarrow> sorted_wrt R (slice0 n xs)"
  by (simp add: slice0_def sorted_wrt_take)

lemma set_sortByScoreDesc: "set (sortByScoreDesc f xs) = set xs"
  by (simp add: sortByScoreDesc_def)

lemma last_dropWhile: "dropWhile P xs \<noteq> [] \<Longrightarrow> last (dropWhile P xs) = last xs"
  by (induction xs) (auto split: if_splits)

lemma trim_no_space_first: "trim s \<noteq> [] \<Longrightarrow> \<not> isWhiteSpace (hd (trim s))"
proof -
  assume ne: "trim s \<noteq> []"
  let ?t = "dropWhile isWhiteSpace s"
  let ?u = "dropWhile isWhiteSpace (rev ?t)"
  from ne have u: "?u \<noteq> []" by (simp add: trim_def)
  have t: "?t \<noteq> []"
  proof
    assume "?t = []"
    then have "?u = []" by (simp only: rev.simps dropWhile.simps)
    with u show False by (simp only: not_True_eq_False simp_thms)
  qed
  have "hd (trim s) = last ?u" using u by (simp add: trim_def hd_rev)
  also have "\<dots> = last (rev ?t)" using u by (rule last_dropWhile)
  also have "\<dots> = hd ?t" using t by (simp add: last_rev)
  finally show ?thesis using t hd_dropWhile [of isWhiteSpace s] by simp
qed

lemma trim_no_space_last: "trim s \<noteq> [] \<Longrightarrow> \<not> isWhiteSpace (last (trim s))"
proof -
  assume ne: "trim s \<noteq> []"
  let ?u = "dropWhile isWhiteSpace (rev (dropWhile isWhiteSpace s))"
  from ne have u: "?u \<noteq> []" by (simp add: trim_def)
  have "last (trim s) = hd ?u" using u by (simp add: trim_def last_rev)
  then show ?thesis using u hd_dropWhile [of isWhiteSpace "rev (dropWhile isWhiteSpace s)"] by simp
qed

lemma trim_fixed:
  assumes "s = [] \<or> (\<not> isWhiteSpace (hd s) \<and> \<not> isWhiteSpace (last s))"
  shows "trim s = s"
proof (cases "s = []")
  case True
  then show ?thesis by (simp add: trim_def)
next
  case False
  with assms have h: "\<not> isWhiteSpace (hd s)" and l: "\<not> isWhiteSpace (last s)" by auto
  from False h have a: "dropWhile isWhiteSpace s = s" by (cases s) auto
  from False l have b: "dropWhile isWhiteSpace (rev s) = rev s"
    by (cases "rev s") (auto simp: last_rev [symmetric] hd_rev)
  show ?thesis by (simp add: trim_def a b)
qed

lemma trim_idem: "trim (trim s) = trim s"
proof (rule trim_fixed)
  show "trim s = [] \<or> (\<not> isWhiteSpace (hd (trim s)) \<and> \<not> isWhiteSpace (last (trim s)))"
    using trim_no_space_first [of s] trim_no_space_last [of s]
    by (cases "trim s = []") simp_all
qed

lemma paragraphs_subset:
  "set (paragraphs doc n) \<subseteq> set (map trim (splitRx paragraphSeparator doc))"
  by (auto simp: paragraphs_def)

lemma paragraphs_length: "p \<in> set (paragraphs doc n) \<Longrightarrow> n \<le> int (length p)"
  by (simp add: paragraphs_def)

lemma scoredParagraphs_member:
  "s \<in> set (scoredParagraphs question ps) \<Longrightarrow>
   score s = passageScore question (ptext s) \<and> idx s < length ps \<and> ps ! idx s = ptext s"
  by (auto simp: scoredParagraphs_def in_set_enumerate_eq)

lemma enumerate_idx_ascending:
  "sorted_wrt (\<lambda>x y. idx x < idx y)
     (map (\<lambda>(i, p). \<lparr>idx = i, score = f p, ptext = p\<rparr>) (enumerate n ps))"
proof (induction ps arbitrary: n)
  case Nil
  show ?case by simp
next
  case (Cons p ps)
  have "\<forall>x \<in> set (enumerate (Suc n) ps). n < fst x"
    by (auto simp: in_set_enumerate_eq)
  with Cons.IH [of "Suc n"] show ?case by (auto simp: case_prod_beta)
qed

lemma scoredParagraphs_ascending:
  "sorted_wrt (\<lambda>x y. idx x < idx y) (scoredParagraphs question ps)"
  unfolding scoredParagraphs_def by (rule enumerate_idx_ascending)

lemma insort_by_score:
  fixes x :: scoredPassage
  assumes "sorted_wrt (\<lambda>x y. score y < score x \<or> (score y = score x \<and> idx x < idx y)) ys"
    and "\<forall>y \<in> set ys. idx x < idx y"
  shows "sorted_wrt (\<lambda>x y. score y < score x \<or> (score y = score x \<and> idx x < idx y))
           (insort_key (\<lambda>s. - int (score s)) x ys)"
  using assms
proof (induction ys)
  case Nil
  show ?case by simp
next
  case (Cons y ys)
  show ?case
  proof (cases "score y \<le> score x")
    case True
    have "\<forall>z \<in> set (y # ys). score z < score x \<or> (score z = score x \<and> idx x < idx z)"
    proof
      fix z assume z: "z \<in> set (y # ys)"
      then have "score z \<le> score y" using Cons.prems(1) by auto
      with True have "score z \<le> score x" by simp
      moreover have "idx x < idx z" using z Cons.prems(2) by (rule_tac bspec)
      ultimately show "score z < score x \<or> (score z = score x \<and> idx x < idx z)" by auto
    qed
    with True Cons.prems(1) show ?thesis by simp
  next
    case False
    have tail: "sorted_wrt (\<lambda>x y. score y < score x \<or> (score y = score x \<and> idx x < idx y))
                  (insort_key (\<lambda>s. - int (score s)) x ys)"
      using Cons.IH Cons.prems by simp
    from False Cons.prems(1) tail show ?thesis by (auto simp: set_insort_key)
  qed
qed

lemma sort_by_score_stable:
  fixes xs :: "scoredPassage list"
  assumes "sorted_wrt (\<lambda>x y. idx x < idx y) xs"
  shows "sorted_wrt (\<lambda>x y. score y < score x \<or> (score y = score x \<and> idx x < idx y))
           (sortByScoreDesc score xs)"
  using assms
proof (induction xs)
  case Nil
  show ?case by (simp add: sortByScoreDesc_def)
next
  case (Cons x xs)
  then have "sorted_wrt (\<lambda>x y. score y < score x \<or> (score y = score x \<and> idx x < idx y))
               (sort_key (\<lambda>s. - int (score s)) xs)"
    by (simp add: sortByScoreDesc_def)
  moreover have "\<forall>y \<in> set (sort_key (\<lambda>s. - int (score s)) xs). idx x < idx y"
    using Cons.prems by simp
  ultimately show ?case unfolding sortByScoreDesc_def sort_key_simps by (rule insort_by_score)
qed

lemma topScored_Some:
  "topScored question (Some doc) opts =
     (if question = [] \<or> doc = [] then []
      else filter (\<lambda>s. 0 < score s)
             (slice0 (effectiveMaxPassages opts)
                (sortByScoreDesc score
                   (scoredParagraphs question (paragraphs doc (effectiveMinLen opts))))))"
  by (simp add: topScored_def)

lemma topScored_member:
  assumes "s \<in> set (topScored question fullText opts)"
  shows "\<exists>doc. fullText = Some doc \<and> 0 < score s
           \<and> s \<in> set (scoredParagraphs question (paragraphs doc (effectiveMinLen opts)))"
proof (cases fullText)
  case None
  with assms show ?thesis by (simp add: topScored_def)
next
  case (Some doc)
  with assms have "s \<in> set (filter (\<lambda>s. 0 < score s)
             (slice0 (effectiveMaxPassages opts)
                (sortByScoreDesc score
                   (scoredParagraphs question (paragraphs doc (effectiveMinLen opts))))))"
    by (simp add: topScored_Some split: if_splits)
  then have pos: "0 < score s" and "s \<in> set (slice0 (effectiveMaxPassages opts)
                (sortByScoreDesc score
                   (scoredParagraphs question (paragraphs doc (effectiveMinLen opts)))))"
    by simp_all
  from this(2) have "s \<in> set (sortByScoreDesc score
                   (scoredParagraphs question (paragraphs doc (effectiveMinLen opts))))"
    by (rule subsetD [OF set_slice0])
  with Some pos show ?thesis by (simp add: set_sortByScoreDesc)
qed

lemma topScored_sorted:
  "sorted_wrt (\<lambda>x y. score y < score x \<or> (score y = score x \<and> idx x < idx y))
     (topScored question fullText opts)"
proof (cases fullText)
  case None
  then show ?thesis by (simp add: topScored_def)
next
  case (Some doc)
  have "sorted_wrt (\<lambda>x y. score y < score x \<or> (score y = score x \<and> idx x < idx y))
          (sortByScoreDesc score
             (scoredParagraphs question (paragraphs doc (effectiveMinLen opts))))"
    by (rule sort_by_score_stable) (rule scoredParagraphs_ascending)
  then show ?thesis
    by (simp add: Some topScored_Some sorted_wrt_filter sorted_wrt_slice0)
qed

lemma topScored_length:
  "0 \<le> effectiveMaxPassages opts \<Longrightarrow>
   int (length (topScored question fullText opts)) \<le> effectiveMaxPassages opts"
proof (cases fullText)
  case None
  assume "0 \<le> effectiveMaxPassages opts"
  with None show ?thesis by (simp add: topScored_def)
next
  case (Some doc)
  assume n: "0 \<le> effectiveMaxPassages opts"
  let ?xs = "slice0 (effectiveMaxPassages opts)
                (sortByScoreDesc score
                   (scoredParagraphs question (paragraphs doc (effectiveMinLen opts))))"
  have "length (filter (\<lambda>s. 0 < score s) ?xs) \<le> length ?xs" by (rule length_filter_le)
  with length_slice0 [OF n, of "sortByScoreDesc score
                   (scoredParagraphs question (paragraphs doc (effectiveMinLen opts)))"] have "int (length (filter (\<lambda>s. 0 < score s) ?xs)) \<le> effectiveMaxPassages opts"
    by linarith
  with n show ?thesis by (simp add: Some topScored_Some)
qed
lemma extract_member:
  assumes "p \<in> set (extractTopHandbookPassages question fullText opts)"
  shows "\<exists>doc. fullText = Some doc \<and> 0 < passageScore question p
           \<and> p \<in> set (paragraphs doc (effectiveMinLen opts))"
proof -
  from assms obtain s where s: "s \<in> set (topScored question fullText opts)" and p: "p = ptext s"
    by (auto simp: extractTopHandbookPassages_def)
  from topScored_member [OF s] obtain doc where doc: "fullText = Some doc" and pos: "0 < score s"
    and mem: "s \<in> set (scoredParagraphs question (paragraphs doc (effectiveMinLen opts)))"
    by auto
  from scoredParagraphs_member [OF mem] pos p doc show ?thesis by (metis nth_mem)
qed

lemma focusedTokens_empty: "focusedTokens [] = []"
  by (simp add: focusedTokens_def splitRx_def toLowerCase_def rx_exec_def)

lemma focusedPool_subset: "set (focusedPool lowerFocus paras) \<subseteq> set paras"
  by (auto simp: focusedPool_def Let_def)

lemma focused_member:
  assumes "p \<in> set (extractTopHandbookPassagesFocused question fullText focusKeywords opts)"
  shows "\<exists>doc. fullText = Some doc \<and> p \<in> set (focusedParagraphs doc)
           \<and> 0 < focusedScore (focusedTokens question) (map toLowerCase focusKeywords) p"
proof (cases fullText)
  case None
  with assms show ?thesis by (simp add: extractTopHandbookPassagesFocused_def)
next
  case (Some doc)
  let ?lf = "map toLowerCase focusKeywords"
  let ?scored = "map (\<lambda>p. (p, focusedScore (focusedTokens question) ?lf p))
                   (focusedPool ?lf (focusedParagraphs doc))"
  from assms Some have "p \<in> fst ` set (filter (\<lambda>s. 0 < snd s)
                     (slice0 (focusedMaxPassages opts) (sortByScoreDesc snd ?scored)))"
    by (simp add: extractTopHandbookPassagesFocused_def Let_def split: if_splits)
  then obtain n where pos: "0 < n"
    and "(p, n) \<in> set (slice0 (focusedMaxPassages opts) (sortByScoreDesc snd ?scored))"
    by auto
  from this(2) have "(p, n) \<in> set (sortByScoreDesc snd ?scored)"
    by (rule subsetD [OF set_slice0])
  then have "(p, n) \<in> set ?scored" by (simp only: set_sortByScoreDesc)
  then have n: "n = focusedScore (focusedTokens question) ?lf p"
    and "p \<in> set (focusedPool ?lf (focusedParagraphs doc))"
    by auto
  from this(2) have "p \<in> set (focusedParagraphs doc)" by (rule subsetD [OF focusedPool_subset])
  with Some pos n show ?thesis by simp
qed

lemma unigramScore_mset:
  "mset ps = mset ps' \<Longrightarrow> unigramScore qTokens ps = unigramScore qTokens ps'"
  unfolding unigramScore_def by (metis mset_filter size_mset)

lemma distinctOverlap_mset:
  "mset ps = mset ps' \<Longrightarrow> distinctOverlap qTokens ps = distinctOverlap qTokens ps'"
proof -
  assume "mset ps = mset ps'"
  then have "set ps = set ps'" by (rule mset_eq_setD)
  then show ?thesis by (simp add: distinctOverlap_def length_remdups_card_conv)
qed

lemma bigram_of_adjacent: "(a @ '' '' @ b) \<in> set (bigrams (pre @ a # b # post))"
proof (induction pre)
  case Nil
  show ?case by simp
next
  case (Cons t pre)
  then show ?case by (cases pre) simp_all
qed

lemma bigramScore_hit:
  "bg \<in> set (bigrams ps) \<Longrightarrow> bg \<in> set qBigrams \<Longrightarrow> 2 \<le> bigramScore qBigrams ps"
proof -
  assume "bg \<in> set (bigrams ps)" and "bg \<in> set qBigrams"
  then have "bg \<in> set (filter (\<lambda>bg. bg \<in> set qBigrams) (bigrams ps))" by simp
  then have "filter (\<lambda>bg. bg \<in> set qBigrams) (bigrams ps) \<noteq> []"
    by (metis empty_iff empty_set)
  then have "0 < length (filter (\<lambda>bg. bg \<in> set qBigrams) (bigrams ps))"
    by simp
  then show ?thesis unfolding bigramScore_def by linarith
qed

section \<open>Claims about the rankers\<close>

text \<open>
  C2. For every question, document and options, the plain ranker returns at most
  \<^verbatim>\<open>maxPassages\<close> passages: at most \<open>m\<close> when the caller passes the bound \<open>m\<close> (a
  bound is a count: it is not negative), and at most three when the caller passes none.
  Every passage it returns has a score above zero; the scores of the passages it returns
  descend; and among passages of the same score the one that comes first in the document
  comes first (\<^term>\<open>idx\<close> is the position of the paragraph in the document). The
  result is a function of the input.
\<close>

theorem plain_ranker_bounded_positive_sorted:
  "(maxPassages opts = Some m \<and> 0 \<le> m \<longrightarrow>
      int (length (extractTopHandbookPassages question fullText opts)) \<le> m)
   \<and> (maxPassages opts = None \<longrightarrow>
      length (extractTopHandbookPassages question fullText opts) \<le> 3)
   \<and> (\<forall>p \<in> set (extractTopHandbookPassages question fullText opts). 0 < passageScore question p)
   \<and> sorted_wrt (\<lambda>p p'. passageScore question p' \<le> passageScore question p)
        (extractTopHandbookPassages question fullText opts)
   \<and> extractTopHandbookPassages question fullText opts
        = map ptext (topScored question fullText opts)
   \<and> sorted_wrt (\<lambda>s s'. score s' < score s \<or> (score s' = score s \<and> idx s < idx s'))
        (topScored question fullText opts)
   \<and> (\<forall>s \<in> set (topScored question fullText opts).
        score s = passageScore question (ptext s)
        \<and> (\<exists>doc. fullText = Some doc
              \<and> idx s < length (paragraphs doc (effectiveMinLen opts))
              \<and> paragraphs doc (effectiveMinLen opts) ! idx s = ptext s))"
proof -
  have members: "\<forall>s \<in> set (topScored question fullText opts).
        score s = passageScore question (ptext s)
        \<and> (\<exists>doc. fullText = Some doc
              \<and> idx s < length (paragraphs doc (effectiveMinLen opts))
              \<and> paragraphs doc (effectiveMinLen opts) ! idx s = ptext s)"
  proof
    fix s assume "s \<in> set (topScored question fullText opts)"
    from topScored_member [OF this] obtain doc where "fullText = Some doc"
      and "s \<in> set (scoredParagraphs question (paragraphs doc (effectiveMinLen opts)))"
      by auto
    with scoredParagraphs_member [OF this(2)]
    show "score s = passageScore question (ptext s)
        \<and> (\<exists>doc. fullText = Some doc
              \<and> idx s < length (paragraphs doc (effectiveMinLen opts))
              \<and> paragraphs doc (effectiveMinLen opts) ! idx s = ptext s)"
      by simp
  qed
  have bound: "maxPassages opts = Some m \<and> 0 \<le> m \<longrightarrow>
      int (length (extractTopHandbookPassages question fullText opts)) \<le> m"
    using topScored_length [of opts question fullText]
    by (auto simp: extractTopHandbookPassages_def effectiveMaxPassages_def)
  have default_bound: "maxPassages opts = None \<longrightarrow>
      length (extractTopHandbookPassages question fullText opts) \<le> 3"
    using topScored_length [of opts question fullText]
    by (auto simp: extractTopHandbookPassages_def effectiveMaxPassages_def)
  have positive: "\<forall>p \<in> set (extractTopHandbookPassages question fullText opts).
                    0 < passageScore question p"
    using extract_member by blast
  have "sorted_wrt (\<lambda>s s'. passageScore question (ptext s') \<le> passageScore question (ptext s))
          (topScored question fullText opts)"
  proof (rule sorted_wrt_mono_rel [OF _ topScored_sorted])
    fix s s'
    assume "s \<in> set (topScored question fullText opts)"
      and "s' \<in> set (topScored question fullText opts)"
      and "score s' < score s \<or> (score s' = score s \<and> idx s < idx s')"
    with members show "passageScore question (ptext s') \<le> passageScore question (ptext s)"
      by (metis le_eq_less_or_eq)
  qed
  then have descending: "sorted_wrt (\<lambda>p p'. passageScore question p' \<le> passageScore question p)
        (extractTopHandbookPassages question fullText opts)"
    by (simp add: extractTopHandbookPassages_def sorted_wrt_map)
  from bound default_bound positive descending topScored_sorted [of question fullText opts]
    members
  show ?thesis by (simp only: extractTopHandbookPassages_def simp_thms)
qed

theorem plain_ranker_bounded_positive_sorted_witness:
  "maxPassages \<lparr>maxPassages = Some 1, minLen = None\<rparr> = Some 1 \<and> (0::int) \<le> 1
   \<and> extractTopHandbookPassages ''dress code uniform''
        (Some (''Students may wear the school uniform daily.'' @ paragraphJoin @
               ''The dress code requires a clean uniform and dress shoes.''))
        \<lparr>maxPassages = Some 1, minLen = None\<rparr>
       = [''The dress code requires a clean uniform and dress shoes.'']
   \<and> int (length (extractTopHandbookPassages ''dress code uniform''
        (Some (''Students may wear the school uniform daily.'' @ paragraphJoin @
               ''The dress code requires a clean uniform and dress shoes.''))
        \<lparr>maxPassages = Some 1, minLen = None\<rparr>)) \<le> 1
   \<and> maxPassages defaultOptions = None
   \<and> extractTopHandbookPassages ''dress code uniform''
        (Some (''Students may wear the school uniform daily.'' @ paragraphJoin @
               ''The dress code requires a clean uniform and dress shoes.''))
        defaultOptions
       = [''The dress code requires a clean uniform and dress shoes.'',
          ''Students may wear the school uniform daily.'']
   \<and> length (extractTopHandbookPassages ''dress code uniform''
        (Some (''Students may wear the school uniform daily.'' @ paragraphJoin @
               ''The dress code requires a clean uniform and dress shoes.''))
        defaultOptions) \<le> 3
   \<and> 0 < passageScore ''dress code uniform'' ''Students may wear the school uniform daily.''
   \<and> passageScore ''dress code uniform'' ''Students may wear the school uniform daily.''
       \<le> passageScore ''dress code uniform''
            ''The dress code requires a clean uniform and dress shoes.''"
proof -
  have given: "maxPassages \<lparr>maxPassages = Some 1, minLen = None\<rparr> = Some 1 \<and> (0::int) \<le> 1"
    by simp
  have none: "maxPassages defaultOptions = None" by (simp add: defaultOptions_def)
  have one: "extractTopHandbookPassages ''dress code uniform''
        (Some (''Students may wear the school uniform daily.'' @ paragraphJoin @
               ''The dress code requires a clean uniform and dress shoes.''))
        \<lparr>maxPassages = Some 1, minLen = None\<rparr>
       = [''The dress code requires a clean uniform and dress shoes.'']"
    by code_simp
  note bounded = plain_ranker_bounded_positive_sorted
      [where opts = "\<lparr>maxPassages = Some 1, minLen = None\<rparr>" and m = 1
        and question = "''dress code uniform''"
        and fullText = "Some (''Students may wear the school uniform daily.'' @ paragraphJoin @
             ''The dress code requires a clean uniform and dress shoes.'')"]
  from given bounded [THEN conjunct1]
  have len1: "int (length (extractTopHandbookPassages ''dress code uniform''
        (Some (''Students may wear the school uniform daily.'' @ paragraphJoin @
               ''The dress code requires a clean uniform and dress shoes.''))
        \<lparr>maxPassages = Some 1, minLen = None\<rparr>)) \<le> 1"
    by (rule rev_mp)
  have result: "extractTopHandbookPassages ''dress code uniform''
        (Some (''Students may wear the school uniform daily.'' @ paragraphJoin @
               ''The dress code requires a clean uniform and dress shoes.''))
        defaultOptions
       = [''The dress code requires a clean uniform and dress shoes.'',
          ''Students may wear the school uniform daily.'']"
    by code_simp
  note ranker = plain_ranker_bounded_positive_sorted
      [where opts = defaultOptions and m = 1 and question = "''dress code uniform''"
        and fullText = "Some (''Students may wear the school uniform daily.'' @ paragraphJoin @
             ''The dress code requires a clean uniform and dress shoes.'')"]
  from none ranker [THEN conjunct2, THEN conjunct1]
  have len: "length (extractTopHandbookPassages ''dress code uniform''
        (Some (''Students may wear the school uniform daily.'' @ paragraphJoin @
               ''The dress code requires a clean uniform and dress shoes.''))
        defaultOptions) \<le> 3"
    by (rule rev_mp)
  from ranker [THEN conjunct2, THEN conjunct2, THEN conjunct1]
  have "\<forall>p \<in> set [''The dress code requires a clean uniform and dress shoes.'',
                     ''Students may wear the school uniform daily.''].
          0 < passageScore ''dress code uniform'' p"
    by (simp only: result)
  then have pos: "0 < passageScore ''dress code uniform''
                        ''Students may wear the school uniform daily.''"
    by simp
  from ranker [THEN conjunct2, THEN conjunct2, THEN conjunct2, THEN conjunct1]
  have "sorted_wrt (\<lambda>p p'. passageScore ''dress code uniform'' p'
                              \<le> passageScore ''dress code uniform'' p)
          [''The dress code requires a clean uniform and dress shoes.'',
           ''Students may wear the school uniform daily.'']"
    by (simp only: result)
  then have desc: "passageScore ''dress code uniform'' ''Students may wear the school uniform daily.''
       \<le> passageScore ''dress code uniform''
            ''The dress code requires a clean uniform and dress shoes.''"
    by simp
  from given one len1 none result len pos desc show ?thesis by (simp only: simp_thms)
qed

text \<open>
  C3, as amended. Both rankers return the empty sequence when the document is absent or
  empty. The plain ranker returns the empty sequence for the empty question. The focused
  ranker has no test of the question: for the empty question it returns the empty
  sequence when there are no focus keywords, and otherwise only passages that contain a
  focus keyword.
\<close>

theorem rankers_on_empty_inputs:
  "extractTopHandbookPassages question None opts = []
   \<and> extractTopHandbookPassages question (Some []) opts = []
   \<and> extractTopHandbookPassagesFocused question None focusKeywords opts = []
   \<and> extractTopHandbookPassagesFocused question (Some []) focusKeywords opts = []
   \<and> extractTopHandbookPassages [] fullText opts = []
   \<and> extractTopHandbookPassagesFocused [] fullText [] opts = []
   \<and> (\<forall>p \<in> set (extractTopHandbookPassagesFocused [] fullText focusKeywords opts).
         \<exists>k \<in> set focusKeywords. includes_str (toLowerCase p) (toLowerCase k))"
proof -
  have with_keyword: "\<forall>p \<in> set (extractTopHandbookPassagesFocused [] fullText ks opts).
         \<exists>k \<in> set ks. includes_str (toLowerCase p) (toLowerCase k)" for ks
  proof
    fix p assume "p \<in> set (extractTopHandbookPassagesFocused [] fullText ks opts)"
    from focused_member [OF this]
    have "0 < focusedScore [] (map toLowerCase ks) p" by (auto simp: focusedTokens_empty)
    then have "filter (\<lambda>k. includes_str (toLowerCase p) (toLowerCase k)) ks \<noteq> []"
      by (simp add: focusedScore_def comp_def)
    then show "\<exists>k \<in> set ks. includes_str (toLowerCase p) (toLowerCase k)"
      by (simp add: filter_empty_conv)
  qed
  from with_keyword [of "[]"] have "set (extractTopHandbookPassagesFocused [] fullText [] opts) = {}"
    by simp
  then have no_keywords: "extractTopHandbookPassagesFocused [] fullText [] opts = []"
    by (simp only: set_empty)
  have plain_empty_question: "extractTopHandbookPassages [] fullText opts = []"
    by (cases fullText) (simp_all add: extractTopHandbookPassages_def topScored_def)
  have "extractTopHandbookPassages question None opts = []"
    and "extractTopHandbookPassages question (Some []) opts = []"
    and "extractTopHandbookPassagesFocused question None focusKeywords opts = []"
    and "extractTopHandbookPassagesFocused question (Some []) focusKeywords opts = []"
    by (simp_all add: extractTopHandbookPassages_def topScored_def
        extractTopHandbookPassagesFocused_def)
  with plain_empty_question no_keywords with_keyword [of focusKeywords]
  show ?thesis by (simp only: simp_thms)
qed

theorem rankers_on_empty_inputs_witness:
  "extractTopHandbookPassagesFocused '''' (Some ''Uniform and dress rules'') [''Dress'']
      defaultOptions = [''Uniform and dress rules'']
   \<and> includes_str (toLowerCase ''Uniform and dress rules'') (toLowerCase ''Dress'')
   \<and> extractTopHandbookPassagesFocused '''' (Some ''Uniform and dress rules'') []
      defaultOptions = []"
proof -
  have result: "extractTopHandbookPassagesFocused '''' (Some ''Uniform and dress rules'')
      [''Dress''] defaultOptions = [''Uniform and dress rules'']"
    by code_simp
  from result
    rankers_on_empty_inputs [of "''x''" defaultOptions "[''Dress'']"
      "Some ''Uniform and dress rules''"]
  show ?thesis by simp
qed

text \<open>
  C3, the counterexample. The focused ranker, given the empty question, a document of
  one paragraph and a focus keyword that the paragraph contains, returns the paragraph.
\<close>

theorem focused_empty_question_counterexample:
  "extractTopHandbookPassagesFocused '''' (Some ''dress code rules'') [''dress'']
     defaultOptions = [''dress code rules'']"
  by code_simp

text \<open>
  C4, as amended. Every passage of either ranker is a piece of the document between
  blank-line separators, trimmed. The plain ranker drops the pieces shorter than
  \<^verbatim>\<open>minLen\<close>, so each passage it returns has a trimmed length of at least
  \<^verbatim>\<open>minLen\<close>, 40 by default. The focused ranker drops the empty pieces only, so each
  passage it returns is not empty.
\<close>

theorem passages_are_trimmed_paragraphs:
  "(\<forall>p \<in> set (extractTopHandbookPassages question fullText opts).
       effectiveMinLen opts \<le> int (length (trim p)))
   \<and> (minLen opts = None \<longrightarrow>
        (\<forall>p \<in> set (extractTopHandbookPassages question fullText opts). 40 \<le> length (trim p)))
   \<and> (\<forall>p \<in> set (extractTopHandbookPassagesFocused question fullText focusKeywords opts).
        0 < length (trim p))
   \<and> (\<forall>p \<in> set (extractTopHandbookPassages question fullText opts)
             \<union> set (extractTopHandbookPassagesFocused question fullText focusKeywords opts).
        \<exists>doc raw. fullText = Some doc \<and> raw \<in> set (splitRx paragraphSeparator doc)
                    \<and> p = trim raw)"
proof -
  have plain: "\<exists>doc raw. fullText = Some doc \<and> raw \<in> set (splitRx paragraphSeparator doc)
                 \<and> p = trim raw \<and> effectiveMinLen opts \<le> int (length p)"
    if "p \<in> set (extractTopHandbookPassages question fullText opts)" for p
  proof -
    from extract_member [OF that] obtain doc where doc: "fullText = Some doc"
      and mem: "p \<in> set (paragraphs doc (effectiveMinLen opts))" by auto
    from mem have "p \<in> set (map trim (splitRx paragraphSeparator doc))"
      by (rule subsetD [OF paragraphs_subset])
    with doc paragraphs_length [OF mem] show ?thesis by auto
  qed
  have focused: "\<exists>doc raw. fullText = Some doc \<and> raw \<in> set (splitRx paragraphSeparator doc)
                 \<and> p = trim raw \<and> p \<noteq> []"
    if "p \<in> set (extractTopHandbookPassagesFocused question fullText focusKeywords opts)" for p
  proof -
    from focused_member [OF that] obtain doc where doc: "fullText = Some doc"
      and mem: "p \<in> set (focusedParagraphs doc)" by auto
    from mem doc show ?thesis by (auto simp: focusedParagraphs_def)
  qed
  have a: "\<forall>p \<in> set (extractTopHandbookPassages question fullText opts).
       effectiveMinLen opts \<le> int (length (trim p))"
    using plain by (metis trim_idem)
  have b: "minLen opts = None \<longrightarrow>
        (\<forall>p \<in> set (extractTopHandbookPassages question fullText opts). 40 \<le> length (trim p))"
    using a by (auto simp: effectiveMinLen_def)
  have c: "\<forall>p \<in> set (extractTopHandbookPassagesFocused question fullText focusKeywords opts).
        0 < length (trim p)"
    using focused by (metis trim_idem length_greater_0_conv)
  have d: "\<forall>p \<in> set (extractTopHandbookPassages question fullText opts)
             \<union> set (extractTopHandbookPassagesFocused question fullText focusKeywords opts).
        \<exists>doc raw. fullText = Some doc \<and> raw \<in> set (splitRx paragraphSeparator doc)
                    \<and> p = trim raw"
    using plain focused by (metis Un_iff)
  from a b c d show ?thesis by (simp only: simp_thms)
qed

theorem passages_are_trimmed_paragraphs_witness:
  "minLen defaultOptions = None
   \<and> extractTopHandbookPassages ''uniform''
        (Some (''  Students may wear the school uniform daily.  '' @ paragraphJoin @
               ''Uniform''))
        defaultOptions
       = [''Students may wear the school uniform daily.'']
   \<and> 40 \<le> length (trim ''Students may wear the school uniform daily.'')
   \<and> extractTopHandbookPassagesFocused ''uniform''
        (Some (''  Students may wear the school uniform daily.  '' @ paragraphJoin @
               ''Uniform''))
        [] defaultOptions
       = [''Students may wear the school uniform daily.'', ''Uniform'']
   \<and> 0 < length (trim ''Uniform'')"
proof -
  have opts: "minLen defaultOptions = None" by (simp add: defaultOptions_def)
  have plain: "extractTopHandbookPassages ''uniform''
        (Some (''  Students may wear the school uniform daily.  '' @ paragraphJoin @
               ''Uniform''))
        defaultOptions
       = [''Students may wear the school uniform daily.'']"
    by code_simp
  have focused: "extractTopHandbookPassagesFocused ''uniform''
        (Some (''  Students may wear the school uniform daily.  '' @ paragraphJoin @
               ''Uniform''))
        [] defaultOptions
       = [''Students may wear the school uniform daily.'', ''Uniform'']"
    by code_simp
  from opts plain focused
    passages_are_trimmed_paragraphs [of "''uniform''"
      "Some (''  Students may wear the school uniform daily.  '' @ paragraphJoin @ ''Uniform'')"
      defaultOptions "[]"]
  show ?thesis by simp
qed

text \<open>
  C4, the counterexample. Under the default configuration the focused ranker returns a
  passage of ten characters.
\<close>

theorem focused_short_passage_counterexample:
  "extractTopHandbookPassagesFocused ''dress'' (Some ''dress code'') [] defaultOptions
     = [''dress code'']
   \<and> length (trim ''dress code'') = 10"
  by code_simp

text \<open>
  C7, as amended. The score of a passage is its unigram count, plus two for every
  adjacent pair of its words that is a bigram of the question, plus the number of
  distinct words it shares with the question. Two passages of the same words differ in
  score by the difference of their bigram scores. If two words are adjacent in the
  question after the stop words are removed, a passage that contains them adjacent and in
  this order scores at least two more than a passage of the same words in another order
  in which no adjacent pair is a bigram of the question.
\<close>

theorem bigram_weighting:
  "passageScore question p
     = unigramScore (questionTokens question) (passageTokens p)
       + bigramScore (bigrams (questionTokens question)) (passageTokens p)
       + distinctOverlap (questionTokens question) (passageTokens p)
   \<and> (mset (passageTokens p2) = mset (passageTokens p1)
      \<longrightarrow> passageScore question p1
            + bigramScore (bigrams (questionTokens question)) (passageTokens p2)
          = passageScore question p2
            + bigramScore (bigrams (questionTokens question)) (passageTokens p1))
   \<and> ((a @ '' '' @ b) \<in> set (bigrams (questionTokens question))
        \<and> passageTokens p1 = pre @ [a, b] @ post
        \<and> mset (passageTokens p2) = mset (passageTokens p1)
        \<and> bigramScore (bigrams (questionTokens question)) (passageTokens p2) = 0
      \<longrightarrow> passageScore question p2 + 2 \<le> passageScore question p1)"
proof (intro conjI impI)
  show "passageScore question p
     = unigramScore (questionTokens question) (passageTokens p)
       + bigramScore (bigrams (questionTokens question)) (passageTokens p)
       + distinctOverlap (questionTokens question) (passageTokens p)"
    by (simp add: passageScore_def Let_def)
next
  assume same: "mset (passageTokens p2) = mset (passageTokens p1)"
  show "passageScore question p1
            + bigramScore (bigrams (questionTokens question)) (passageTokens p2)
          = passageScore question p2
            + bigramScore (bigrams (questionTokens question)) (passageTokens p1)"
    using unigramScore_mset [OF same, of "questionTokens question"]
      distinctOverlap_mset [OF same, of "questionTokens question"]
    by (simp add: passageScore_def Let_def)
next
  assume h: "(a @ '' '' @ b) \<in> set (bigrams (questionTokens question))
        \<and> passageTokens p1 = pre @ [a, b] @ post
        \<and> mset (passageTokens p2) = mset (passageTokens p1)
        \<and> bigramScore (bigrams (questionTokens question)) (passageTokens p2) = 0"
  then have "(a @ '' '' @ b) \<in> set (bigrams (passageTokens p1))"
    using bigram_of_adjacent [of a b pre post] by simp
  with h have "2 \<le> bigramScore (bigrams (questionTokens question)) (passageTokens p1)"
    using bigramScore_hit by blast
  moreover from h have "unigramScore (questionTokens question) (passageTokens p2)
                        = unigramScore (questionTokens question) (passageTokens p1)"
    using unigramScore_mset by blast
  moreover from h have "distinctOverlap (questionTokens question) (passageTokens p2)
                        = distinctOverlap (questionTokens question) (passageTokens p1)"
    using distinctOverlap_mset by blast
  ultimately show "passageScore question p2 + 2 \<le> passageScore question p1"
    using h by (simp add: passageScore_def Let_def)
qed

theorem bigram_weighting_witness:
  "''dress code'' \<in> set (bigrams (questionTokens ''What is the dress code policy?''))
   \<and> passageTokens ''Our dress code.'' = [''our''] @ [''dress'', ''code''] @ []
   \<and> mset (passageTokens ''Code: our dress'') = mset (passageTokens ''Our dress code.'')
   \<and> bigramScore (bigrams (questionTokens ''What is the dress code policy?''))
        (passageTokens ''Code: our dress'') = 0
   \<and> passageScore ''What is the dress code policy?'' ''Code: our dress'' + 2
       \<le> passageScore ''What is the dress code policy?'' ''Our dress code.''"
proof -
  have a: "''dress'' @ '' '' @ ''code''
             \<in> set (bigrams (questionTokens ''What is the dress code policy?''))"
    by code_simp
  have b: "passageTokens ''Our dress code.'' = [''our''] @ [''dress'', ''code''] @ []"
    by code_simp
  have c: "passageTokens ''Code: our dress'' = [''code'', ''our'', ''dress'']"
    by code_simp
  have d: "mset (passageTokens ''Code: our dress'') = mset (passageTokens ''Our dress code.'')"
    by (simp add: b c)
  have e: "bigramScore (bigrams (questionTokens ''What is the dress code policy?''))
        (passageTokens ''Code: our dress'') = 0"
    by code_simp
  from a b d e
    bigram_weighting [where question = "''What is the dress code policy?''"
      and p = "''Our dress code.''" and a = "''dress''" and b = "''code''"
      and ?p1.0 = "''Our dress code.''" and pre = "[''our'']" and post = "[]"
      and ?p2.0 = "''Code: our dress''"]
  show ?thesis by simp
qed

text \<open>
  C7, the counterexample. The words \<^verbatim>\<open>dress code\<close> are a phrase of the question. The
  first passage contains the phrase, the second is the same passage with the two words
  reversed, and the second scores higher, because its neighbours make two bigrams of the
  question: the ranker returns it first.
\<close>

theorem reversed_phrase_counterexample:
  "''dress code'' \<in> set (bigrams (questionTokens ''dress code uniform code policy dress rules''))
   \<and> passageTokens ''uniform dress code rules apply to every student''
       = [''uniform'', ''dress'', ''code'', ''rules'', ''apply'', ''to'', ''every'', ''student'']
   \<and> passageTokens ''uniform code dress rules apply to every student''
       = [''uniform'', ''code'', ''dress'', ''rules'', ''apply'', ''to'', ''every'', ''student'']
   \<and> passageScore ''dress code uniform code policy dress rules''
        ''uniform dress code rules apply to every student'' = 10
   \<and> passageScore ''dress code uniform code policy dress rules''
        ''uniform code dress rules apply to every student'' = 12
   \<and> extractTopHandbookPassages ''dress code uniform code policy dress rules''
        (Some (''uniform dress code rules apply to every student'' @ paragraphJoin @
               ''uniform code dress rules apply to every student''))
        defaultOptions
       = [''uniform code dress rules apply to every student'',
          ''uniform dress code rules apply to every student'']"
  by code_simp

end
